theory Spec2Isabelle
  imports Main "HOL-Library.AList" "HOL-Library.Multiset"
begin

section \<open>JavaScript values that cross the JSON boundary\<close>

text \<open>
  The client (\<^verbatim>\<open>src/App.tsx\<close>) receives two kinds of untyped data: the body of the
  HTTP response and the contents of \<^verbatim>\<open>localStorage\<close>, both produced by
  \<^verbatim>\<open>JSON.parse\<close>. A parsed value is a \<open>json\<close>. An object is the list of its own
  properties in property order (keys are distinct after parsing). Strings are lists of
  code units; a \<open>char\<close> stands for the code unit of the same number, so the model covers
  code units up to U+00FF. Numbers are the safe integers (magnitude below \<open>2 ^ 53\<close>),
  the ones that \<^verbatim>\<open>JSON.parse\<close> reads exactly and that \<^verbatim>\<open>String\<close> and
  \<^verbatim>\<open>JSON.stringify\<close> print as their decimal digits; fractions, exponents and larger
  magnitudes, which JavaScript rounds to a double and prints in its shortest form, are
  outside the model.
\<close>

datatype json =
    JNull
  | JBool bool
  | JNum int
  | JStr string
  | JArr "json list"
  | JObj "(string \<times> json) list"

text \<open>An exception value; only its \<^verbatim>\<open>message\<close> is ever read (by the handler's catch).\<close>

datatype js_error = TypeError string

fun message :: "js_error \<Rightarrow> string" where
  "message (TypeError m) = m"

text \<open>Truthiness (\<^verbatim>\<open>!x\<close>, \<^verbatim>\<open>if (x)\<close>, \<^verbatim>\<open>x || y\<close>, \<^verbatim>\<open>Boolean(x)\<close>).\<close>

fun truthy :: "json \<Rightarrow> bool" where
  "truthy JNull = False"
| "truthy (JBool b) = b"
| "truthy (JNum n) = (n \<noteq> 0)"
| "truthy (JStr s) = (s \<noteq> [])"
| "truthy (JArr xs) = True"
| "truthy (JObj kvs) = True"

text \<open>
  Property reads \<^verbatim>\<open>v?.[k]\<close> and \<^verbatim>\<open>v.k\<close> on a non-nullish value; \<open>None\<close> is
  \<^verbatim>\<open>undefined\<close>. The program reads only keys that no prototype defines
  (\<^verbatim>\<open>prompt\<close>, \<^verbatim>\<open>role\<close>, \<^verbatim>\<open>date\<close>, \<^verbatim>\<open>error\<close>, ...), so a read finds an own
  property of an object or nothing.
\<close>

fun get_prop :: "json \<Rightarrow> string \<Rightarrow> json option" where
  "get_prop (JObj kvs) k = map_of kvs k"
| "get_prop v k = None"

text \<open>\<^verbatim>\<open>a ?? b\<close>: the right operand is taken when the left is undefined or null.\<close>

definition coalesce :: "json option \<Rightarrow> json option \<Rightarrow> json option" where
  "coalesce a b = (if a = None \<or> a = Some JNull then b else a)"

definition truthy_opt :: "json option \<Rightarrow> bool" where
  "truthy_opt v = (case v of None \<Rightarrow> False | Some x \<Rightarrow> truthy x)"

subsection \<open>Strings\<close>

text \<open>White space and line terminators removed by \<^verbatim>\<open>String.prototype.trim\<close>.\<close>

definition is_space :: "char \<Rightarrow> bool" where
  "is_space c = (c \<in> set [CHR 0x09, CHR 0x0A, CHR 0x0B, CHR 0x0C, CHR 0x0D, CHR 0x20, CHR 0xA0])"

definition trim :: "string \<Rightarrow> string" where
  "trim s = rev (dropWhile is_space (rev (dropWhile is_space s)))"

text \<open>\<^verbatim>\<open>xs.join(sep)\<close> on an array of strings.\<close>

fun join :: "string \<Rightarrow> string list \<Rightarrow> string" where
  "join sep [] = []"
| "join sep [x] = x"
| "join sep (x # y # ys) = x @ sep @ join sep (y # ys)"

text \<open>The decimal digits of a safe integer, as \<^verbatim>\<open>Number.prototype.toString\<close> gives them.\<close>

definition digit_char :: "nat \<Rightarrow> char" where
  "digit_char d = char_of (48 + d)"

function string_of_nat :: "nat \<Rightarrow> string" where
  "string_of_nat n =
     (if n < 10 then [digit_char n] else string_of_nat (n div 10) @ [digit_char (n mod 10)])"
  by pat_completeness auto
termination
  by (relation "measure id") auto

declare string_of_nat.simps [simp del]

definition string_of_int :: "int \<Rightarrow> string" where
  "string_of_int i = (if i < 0 then CHR ''-'' # string_of_nat (nat (- i)) else string_of_nat (nat i))"

subsection \<open>\<^verbatim>\<open>String(v)\<close>\<close>

text \<open>
  \<^verbatim>\<open>String(v)\<close> converts through ToPrimitive. A plain object answers with
  \<^verbatim>\<open>Object.prototype.toString\<close> unless it has an own property \<^verbatim>\<open>toString\<close>; a
  parsed value is never callable, so such an object has no usable \<^verbatim>\<open>toString\<close>, its
  \<^verbatim>\<open>valueOf\<close> (own and not callable, or inherited and returning the object) gives no
  primitive either, and the conversion throws a TypeError. An array answers with
  \<^verbatim>\<open>join\<close>, which prints null as the empty string and converts every other element.
  A number is a safe integer and prints as its decimal digits.
\<close>

definition no_primitive :: js_error where
  "no_primitive = TypeError ''Cannot convert object to primitive value''"

fun collect :: "('e + 'a) list \<Rightarrow> 'e + 'a list" where
  "collect [] = Inr []"
| "collect (r # rs) =
     (case r of
        Inl e \<Rightarrow> Inl e
      | Inr x \<Rightarrow> (case collect rs of Inl e \<Rightarrow> Inl e | Inr xs \<Rightarrow> Inr (x # xs)))"

fun ToString :: "json \<Rightarrow> js_error + string" where
  "ToString JNull = Inr ''null''"
| "ToString (JBool b) = Inr (if b then ''true'' else ''false'')"
| "ToString (JNum n) = Inr (string_of_int n)"
| "ToString (JStr s) = Inr s"
| "ToString (JArr xs) =
     (case collect (map (\<lambda>x. if x = JNull then Inr [] else ToString x) xs) of
        Inl e \<Rightarrow> Inl e
      | Inr strs \<Rightarrow> Inr (join '','' strs))"
| "ToString (JObj kvs) =
     (if ''toString'' \<in> set (map fst kvs) then Inl no_primitive else Inr ''[object Object]'')"

subsection \<open>\<^verbatim>\<open>JSON.stringify(v, null, 2)\<close>\<close>

text \<open>
  The serialization with a two-space gap. \<open>ind\<close> is the indentation reached so far. A
  number is a safe integer and is written as its decimal digits.
\<close>

definition hex_digit :: "nat \<Rightarrow> char" where
  "hex_digit d = (if d < 10 then char_of (48 + d) else char_of (87 + d))"

definition quote_char :: "char \<Rightarrow> string" where
  "quote_char c =
     (if c = CHR 0x08 then [CHR 0x5C, CHR ''b'']
      else if c = CHR 0x09 then [CHR 0x5C, CHR ''t'']
      else if c = CHR 0x0A then [CHR 0x5C, CHR ''n'']
      else if c = CHR 0x0C then [CHR 0x5C, CHR ''f'']
      else if c = CHR 0x0D then [CHR 0x5C, CHR ''r'']
      else if c = CHR 0x22 then [CHR 0x5C, CHR 0x22]
      else if c = CHR 0x5C then [CHR 0x5C, CHR 0x5C]
      else if (of_char c :: nat) < 32
        then [CHR 0x5C, CHR ''u'', CHR ''0'', CHR ''0'', hex_digit (of_char c div 16), hex_digit (of_char c mod 16)]
      else [c])"

definition quote :: "string \<Rightarrow> string" where
  "quote s = CHR 0x22 # concat (map quote_char s) @ [CHR 0x22]"

fun stringify :: "string \<Rightarrow> json \<Rightarrow> string" where
  "stringify ind JNull = ''null''"
| "stringify ind (JBool b) = (if b then ''true'' else ''false'')"
| "stringify ind (JNum n) = string_of_int n"
| "stringify ind (JStr s) = quote s"
| "stringify ind (JArr xs) =
     (if xs = [] then ''[]''
      else ''['' @ [CHR 0x0A] @ ind @ ''  ''
           @ join ('','' @ [CHR 0x0A] @ ind @ ''  '') (map (stringify (ind @ ''  '')) xs)
           @ [CHR 0x0A] @ ind @ '']'')"
| "stringify ind (JObj kvs) =
     (if kvs = [] then ''{}''
      else ''{'' @ [CHR 0x0A] @ ind @ ''  ''
           @ join ('','' @ [CHR 0x0A] @ ind @ ''  '')
               (map (\<lambda>kv. quote (fst kv) @ '': '' @ stringify (ind @ ''  '') (snd kv)) kvs)
           @ [CHR 0x0A] @ ind @ ''}'')"

definition JSON_stringify :: "json \<Rightarrow> string" where
  "JSON_stringify v = stringify [] v"

section \<open>The response normalizer\<close>

definition NL :: string where
  "NL = [CHR 0x0A]"

text \<open>\<^verbatim>\<open>typeof v === "string" && v.trim()\<close>, giving the trimmed string when it holds.\<close>

definition nonblank :: "json option \<Rightarrow> string option" where
  "nonblank v = (case v of Some (JStr t) \<Rightarrow> (if trim t \<noteq> [] then Some (trim t) else None) | _ \<Rightarrow> None)"

fun pick :: "json \<Rightarrow> string list \<Rightarrow> string" where
  "pick data [] = []"
| "pick data (k # ks) = (case nonblank (get_prop data k) of Some t \<Rightarrow> t | None \<Rightarrow> pick data ks)"

text \<open>
  One of the three list-or-scalar blocks: the heading, then a bulleted line per array
  element or the scalar printed by \<^verbatim>\<open>String\<close>; nothing when the value is falsy.
\<close>

definition pushBlock :: "string \<Rightarrow> json option \<Rightarrow> js_error + string list" where
  "pushBlock heading v =
     (case v of
        None \<Rightarrow> Inr []
      | Some (JArr xs) \<Rightarrow>
          (case collect (map ToString xs) of
             Inl e \<Rightarrow> Inl e
           | Inr strs \<Rightarrow> Inr (heading # map (\<lambda>t. ''- '' @ t) strs))
      | Some x \<Rightarrow>
          (if truthy x
           then (case ToString x of Inl e \<Rightarrow> Inl e | Inr t \<Rightarrow> Inr [heading, t])
           else Inr []))"

definition toCopyReadyPrompt :: "json \<Rightarrow> js_error + string" where
  "toCopyReadyPrompt data =
     (if \<not> truthy data then Inr ''No prompt generated.''
      else case nonblank (get_prop data ''prompt'') of
        Some p \<Rightarrow> Inr p
      | None \<Rightarrow>
         (let role = pick data [''AI Role'', ''role'', ''ai_role''];
              context = pick data [''Context'', ''context''];
              task = pick data [''Task'', ''task''];
              constraints = coalesce (get_prop data ''Constraints'') (get_prop data ''constraints'');
              outputFormat =
                coalesce (coalesce (get_prop data ''Output Format'') (get_prop data ''output_format''))
                  (get_prop data ''outputFormat'');
              followUps =
                coalesce (coalesce (get_prop data ''Follow-up Questions'') (get_prop data ''follow_up_questions''))
                  (get_prop data ''followUps'');
              lines0 =
                (if role \<noteq> [] then [''AI Role:'' @ NL @ role] else [])
                @ (if context \<noteq> [] then [NL @ ''Context:'' @ NL @ context] else [])
                @ (if task \<noteq> [] then [NL @ ''Task:'' @ NL @ task] else [])
          in case pushBlock (NL @ ''Constraints:'') constraints of
               Inl e \<Rightarrow> Inl e
             | Inr cs \<Rightarrow>
            (case pushBlock (NL @ ''Output Format:'') outputFormat of
               Inl e \<Rightarrow> Inl e
             | Inr os \<Rightarrow>
            (case pushBlock (NL @ ''Follow-up Questions (max 2):'') followUps of
               Inl e \<Rightarrow> Inl e
             | Inr fs \<Rightarrow>
                (let joined = trim (join NL (lines0 @ cs @ os @ fs))
                 in Inr (if joined \<noteq> [] then joined else JSON_stringify data))))))"

fun string_elems :: "json list \<Rightarrow> string list" where
  "string_elems [] = []"
| "string_elems (JStr q # qs) = q # string_elems qs"
| "string_elems (q # qs) = string_elems qs"

definition followUpsFromResult :: "json \<Rightarrow> string list" where
  "followUpsFromResult r =
     (case coalesce (coalesce (get_prop r ''follow_up_questions'') (get_prop r ''Follow-up Questions''))
             (get_prop r ''followUps'') of
        Some (JArr v) \<Rightarrow> string_elems v
      | _ \<Rightarrow> [])"

section \<open>Persisted state\<close>

text \<open>
  What \<^verbatim>\<open>JSON.parse(localStorage.getItem(key))\<close> meets: no item (or the empty string),
  an item that is not JSON (or a read that throws), or a parsed value.
\<close>

datatype raw_item = Missing | Malformed | Parsed json

definition FREE_DAILY_LIMIT :: int where
  "FREE_DAILY_LIMIT = 3"

definition FREE_HISTORY_LIMIT :: nat where
  "FREE_HISTORY_LIMIT = 10"

text \<open>\<open>today\<close> is the value of \<^verbatim>\<open>todayKey()\<close>, the local date as \<^verbatim>\<open>YYYY-MM-DD\<close>.\<close>

definition readUsage :: "raw_item \<Rightarrow> string \<Rightarrow> int" where
  "readUsage raw today =
     (case raw of
        Parsed parsed \<Rightarrow>
          (case get_prop parsed ''count'' of
             Some (JNum n) \<Rightarrow>
               if \<not> truthy_opt (get_prop parsed ''date'') then 0
               else if get_prop parsed ''date'' \<noteq> Some (JStr today) then 0
               else max 0 n
           | _ \<Rightarrow> 0)
      | _ \<Rightarrow> 0)"

text \<open>
  \<^verbatim>\<open>readHistory\<close> returns the parsed elements that pass \<^verbatim>\<open>filter(Boolean)\<close>; the cast
  to \<^verbatim>\<open>HistoryItem[]\<close> checks nothing, so the result is a list of parsed values.
\<close>

definition readHistory :: "raw_item \<Rightarrow> json list" where
  "readHistory raw = (case raw of Parsed (JArr parsed) \<Rightarrow> filter truthy parsed | _ \<Rightarrow> [])"

text \<open>
  The history list renders every entry \<^verbatim>\<open>h\<close> with
  \<^verbatim>\<open>h.input.length > 120 ? ... : h.input\<close>. On a truthy \<^verbatim>\<open>h\<close> the read of
  \<^verbatim>\<open>h.input\<close> never throws; the read of \<^verbatim>\<open>.length\<close> throws a TypeError exactly
  when \<^verbatim>\<open>h.input\<close> is undefined or null.
\<close>

definition inputLengthThrows :: "json \<Rightarrow> bool" where
  "inputLengthThrows h = (get_prop h ''input'' = None \<or> get_prop h ''input'' = Some JNull)"

section \<open>Application state\<close>

datatype Plan = Free | Pro

datatype PresetId =
    business | education | viralContent | youtubeFaceless | productAds
  | quickFixPlan | nonprofit | aiTopics | digitalProduct

record HistoryItem =
  id' :: string
  createdAt :: int
  preset :: "PresetId option"
  input :: string
  output' :: string
  followUps :: "string list"
  saved :: bool

text \<open>The \<^verbatim>\<open>useState\<close> cells of \<^verbatim>\<open>App\<close>. \<open>error\<close> holds whatever \<^verbatim>\<open>setError\<close> was given.\<close>

record AppState =
  plan :: Plan
  dailyCount :: int
  idea :: string
  presetSel :: "PresetId option"
  result :: "json option"
  loading :: bool
  error :: json
  showUpgrade :: bool
  history :: "HistoryItem list"
  activeHistoryId :: "string option"

text \<open>
  What lies outside the component: the two \<^verbatim>\<open>localStorage\<close> items and the
  \<^verbatim>\<open>userInput\<close> of every request sent to \<^verbatim>\<open>/api/transformPrompt\<close>, oldest first.
\<close>

record World =
  pap_usage :: raw_item
  pap_history :: raw_item
  requests :: "string list"

text \<open>
  How \<^verbatim>\<open>fetch\<close> ends: it rejects with an error carrying a message, or it resolves with
  \<^verbatim>\<open>res.ok\<close>, \<^verbatim>\<open>res.status\<close> and the body (\<open>None\<close> when \<^verbatim>\<open>res.json()\<close> throws).
\<close>

datatype fetch_outcome = Rejected string | Response bool nat "json option"

text \<open>
  The readings one handler call takes from its surroundings: \<^verbatim>\<open>todayKey()\<close>,
  \<^verbatim>\<open>Date.now()\<close>, \<^verbatim>\<open>uid()\<close>, the outcome of the request, and whether
  \<^verbatim>\<open>localStorage.setItem\<close> succeeds (a failed write is swallowed).
\<close>

record Env =
  today :: string
  now :: int
  uid :: string
  response :: fetch_outcome
  storageWritable :: bool

subsection \<open>Usage meter\<close>

text \<open>\<open>None\<close> is \<^verbatim>\<open>Infinity\<close>.\<close>

definition remaining :: "Plan \<Rightarrow> int \<Rightarrow> int option" where
  "remaining p n = (if p = Pro then None else Some (max 0 (FREE_DAILY_LIMIT - n)))"

definition canGenerate :: "Plan \<Rightarrow> int \<Rightarrow> bool" where
  "canGenerate p n = (if p = Pro then True else n < FREE_DAILY_LIMIT)"

definition writeUsage :: "Env \<Rightarrow> int \<Rightarrow> World \<Rightarrow> World" where
  "writeUsage env n w =
     (if storageWritable env
      then w\<lparr>pap_usage := Parsed (JObj [(''date'', JStr (today env)), (''count'', JNum n)])\<rparr>
      else w)"

definition bumpUsage :: "Env \<Rightarrow> AppState \<times> World \<Rightarrow> AppState \<times> World" where
  "bumpUsage env sw =
     (case sw of (s, w) \<Rightarrow>
        if plan s = Pro then (s, w)
        else (let next = dailyCount s + 1 in (s\<lparr>dailyCount := next\<rparr>, writeUsage env next w)))"

subsection \<open>History store\<close>

definition preset_name :: "PresetId \<Rightarrow> string" where
  "preset_name p =
     (case p of
        business \<Rightarrow> ''business'' | education \<Rightarrow> ''education''
      | viralContent \<Rightarrow> ''viralContent'' | youtubeFaceless \<Rightarrow> ''youtubeFaceless''
      | productAds \<Rightarrow> ''productAds'' | quickFixPlan \<Rightarrow> ''quickFixPlan''
      | nonprofit \<Rightarrow> ''nonprofit'' | aiTopics \<Rightarrow> ''aiTopics''
      | digitalProduct \<Rightarrow> ''digitalProduct'')"

definition item_json :: "HistoryItem \<Rightarrow> json" where
  "item_json h =
     JObj [(''id'', JStr (id' h)),
           (''createdAt'', JNum (createdAt h)),
           (''preset'', (case preset h of None \<Rightarrow> JNull | Some p \<Rightarrow> JStr (preset_name p))),
           (''input'', JStr (input h)),
           (''output'', JStr (output' h)),
           (''followUps'', JArr (map JStr (followUps h))),
           (''saved'', JBool (saved h))]"

definition writeHistory :: "Env \<Rightarrow> HistoryItem list \<Rightarrow> World \<Rightarrow> World" where
  "writeHistory env items w =
     (if storageWritable env then w\<lparr>pap_history := Parsed (JArr (map item_json items))\<rparr> else w)"

text \<open>
  \<^verbatim>\<open>xs.sort((a, b) => b.createdAt - a.createdAt)\<close>: the stable sort, newest first;
  entries of equal \<open>createdAt\<close> keep their order.
\<close>

definition sortDesc :: "HistoryItem list \<Rightarrow> HistoryItem list" where
  "sortDesc xs = sort_key (\<lambda>x. - createdAt x) xs"

text \<open>
  The \<^verbatim>\<open>Map\<close> filled by \<^verbatim>\<open>byId.set(item.id, item)\<close> and read by \<^verbatim>\<open>byId.values()\<close>: a
  key keeps the place of its first insertion and the value of its last.
\<close>

definition byIdValues :: "HistoryItem list \<Rightarrow> HistoryItem list" where
  "byIdValues merged = map snd (fold (\<lambda>item m. AList.update (id' item) item m) merged [])"

definition enforceHistoryLimit :: "Plan \<Rightarrow> HistoryItem list \<Rightarrow> HistoryItem list" where
  "enforceHistoryLimit p items =
     (if p = Pro then items
      else (let savedItems = filter saved items;
                nonSaved = filter (\<lambda>x. \<not> saved x) items;
                trimmedNonSaved = take FREE_HISTORY_LIMIT nonSaved;
                merged = savedItems @ trimmedNonSaved
            in sortDesc (byIdValues merged)))"

text \<open>The \<^verbatim>\<open>item\<close> that \<^verbatim>\<open>saveToHistory\<close> builds before it touches the list.\<close>

definition newItem :: "Env \<Rightarrow> AppState \<Rightarrow> string \<Rightarrow> string \<Rightarrow> string list \<Rightarrow> HistoryItem" where
  "newItem env s inp outp fups =
     \<lparr>id' = uid env, createdAt = now env, preset = presetSel s, input = inp,
      output' = outp, followUps = fups, saved = False\<rparr>"

definition saveToHistory ::
  "Env \<Rightarrow> string \<Rightarrow> string \<Rightarrow> string list \<Rightarrow> AppState \<times> World \<Rightarrow> AppState \<times> World" where
  "saveToHistory env inp outp fups sw =
     (case sw of (s, w) \<Rightarrow>
        let item = newItem env s inp outp fups;
            next = enforceHistoryLimit (plan s) (sortDesc (item # history s))
        in (s\<lparr>history := next, activeHistoryId := Some (id' item)\<rparr>, writeHistory env next w))"

definition toggleSaved :: "Env \<Rightarrow> string \<Rightarrow> AppState \<times> World \<Rightarrow> AppState \<times> World" where
  "toggleSaved env i sw =
     (case sw of (s, w) \<Rightarrow>
        let next = map (\<lambda>h. if id' h = i then h\<lparr>saved := \<not> saved h\<rparr> else h) (history s);
            enforced = enforceHistoryLimit (plan s) (sortDesc next)
        in (s\<lparr>history := enforced\<rparr>, writeHistory env enforced w))"

definition deleteHistoryItem :: "Env \<Rightarrow> string \<Rightarrow> AppState \<times> World \<Rightarrow> AppState \<times> World" where
  "deleteHistoryItem env i sw =
     (case sw of (s, w) \<Rightarrow>
        let next = filter (\<lambda>h. id' h \<noteq> i) (history s)
        in (s\<lparr>history := next,
               activeHistoryId := (if activeHistoryId s = Some i then None else activeHistoryId s)\<rparr>,
            writeHistory env next w))"

definition clearAllHistory :: "Env \<Rightarrow> AppState \<times> World \<Rightarrow> AppState \<times> World" where
  "clearAllHistory env sw =
     (case sw of (s, w) \<Rightarrow>
        let keepSaved = filter saved (history s);
            enforced = enforceHistoryLimit (plan s) (sortDesc keepSaved)
        in (s\<lparr>history := enforced, activeHistoryId := None\<rparr>, writeHistory env enforced w))"

text \<open>
  The plan button. Its \<^verbatim>\<open>setHistory\<close> updater calls the \<^verbatim>\<open>enforceHistoryLimit\<close> of the
  render that created the handler, whose \<^verbatim>\<open>plan\<close> is the plan before the click.
\<close>

definition togglePlan :: "Env \<Rightarrow> AppState \<times> World \<Rightarrow> AppState \<times> World" where
  "togglePlan env sw =
     (case sw of (s, w) \<Rightarrow>
        let enforced = enforceHistoryLimit (plan s) (history s)
        in (s\<lparr>plan := (if plan s = Free then Pro else Free), showUpgrade := False,
               error := JStr [], history := enforced\<rparr>,
            writeHistory env enforced w))"

subsection \<open>Session controller\<close>

text \<open>The own enumerable properties that \<^verbatim>\<open>{...v}\<close> copies from a truthy value.\<close>

definition spreadProps :: "json \<Rightarrow> (string \<times> json) list" where
  "spreadProps v =
     (case v of
        JObj kvs \<Rightarrow> kvs
      | JArr xs \<Rightarrow> zip (map string_of_nat [0..<length xs]) xs
      | JStr t \<Rightarrow> zip (map string_of_nat [0..<length t]) (map (\<lambda>c. JStr [c]) t)
      | _ \<Rightarrow> [])"

definition requestFailed :: "nat \<Rightarrow> string" where
  "requestFailed status = ''Request failed ('' @ string_of_nat status @ '')''"

definition dailyLimitReached :: string where
  "dailyLimitReached =
     ''Daily limit reached. Free plan allows '' @ string_of_int FREE_DAILY_LIMIT
       @ '' prompts/day. Upgrade for unlimited.''"

text \<open>\<^verbatim>\<open>e?.message || "Something went wrong."\<close>\<close>

definition caughtMessage :: "string \<Rightarrow> string" where
  "caughtMessage m = (if m \<noteq> [] then m else ''Something went wrong.'')"

text \<open>
  One run of \<^verbatim>\<open>handleArchitect\<close>, from the click to the end of its \<^verbatim>\<open>finally\<close>. The
  closures \<^verbatim>\<open>bumpUsage\<close> and \<^verbatim>\<open>saveToHistory\<close> read the \<^verbatim>\<open>plan\<close>,
  \<^verbatim>\<open>dailyCount\<close>, \<^verbatim>\<open>preset\<close> and \<^verbatim>\<open>history\<close> of the render that created the handler,
  which the run itself does not change before they are read.
\<close>

definition handleArchitect :: "Env \<Rightarrow> AppState \<times> World \<Rightarrow> AppState \<times> World" where
  "handleArchitect env sw =
     (case sw of (s, w) \<Rightarrow>
        let s0 = s\<lparr>error := JStr [], result := None\<rparr>;
            trimmed = trim (idea s)
        in if trimmed = [] then (s0\<lparr>error := JStr ''Type something first.''\<rparr>, w)
           else if \<not> canGenerate (plan s) (dailyCount s)
             then (s0\<lparr>showUpgrade := True, error := JStr dailyLimitReached\<rparr>, w)
           else
             (let w1 = w\<lparr>requests := requests w @ [trimmed]\<rparr>
              in case response env of
                   Rejected m \<Rightarrow> (s0\<lparr>error := JStr (caughtMessage m), loading := False\<rparr>, w1)
                 | Response ok status body \<Rightarrow>
                    (let data = (case body of None \<Rightarrow> JNull | Some d \<Rightarrow> d)
                     in if \<not> ok
                        then (s0\<lparr>error :=
                                    (case get_prop data ''error'' of
                                       Some e \<Rightarrow> (if truthy e then e else JStr (requestFailed status))
                                     | None \<Rightarrow> JStr (requestFailed status)),
                                  loading := False\<rparr>, w1)
                        else
                          (case bumpUsage env (s0, w1) of (s1, w2) \<Rightarrow>
                             (case toCopyReadyPrompt data of
                                Inl e \<Rightarrow>
                                  (s1\<lparr>error := JStr (caughtMessage (message e)), loading := False\<rparr>, w2)
                              | Inr promptText \<Rightarrow>
                                  (let fups = followUpsFromResult data;
                                       shown =
                                         AList.update ''follow_up_questions'' (JArr (map JStr fups))
                                           (AList.update ''prompt'' (JStr promptText)
                                              (if truthy data then spreadProps data else []));
                                       s2 = s1\<lparr>result := Some (JObj shown)\<rparr>
                                   in case saveToHistory env trimmed promptText fups (s2, w2) of
                                        (s3, w3) \<Rightarrow> (s3\<lparr>loading := False\<rparr>, w3)))))))"

section \<open>Values that \<^verbatim>\<open>String\<close> can print\<close>

text \<open>
  A value is printable when no object that \<^verbatim>\<open>String\<close> reaches has an own property
  \<^verbatim>\<open>toString\<close>; a block value is safe when everything \<open>pushBlock\<close> prints is.
\<close>

fun printable :: "json \<Rightarrow> bool" where
  "printable (JArr xs) = list_all printable xs"
| "printable (JObj kvs) = (''toString'' \<notin> set (map fst kvs))"
| "printable v = True"

definition block_ok :: "json option \<Rightarrow> bool" where
  "block_ok v =
     (case v of
        None \<Rightarrow> True
      | Some (JArr xs) \<Rightarrow> list_all printable xs
      | Some x \<Rightarrow> truthy x \<longrightarrow> printable x)"

section \<open>The store's ordering\<close>

text \<open>A history is newest first when no entry is followed by a more recent one.\<close>

definition newestFirst :: "HistoryItem list \<Rightarrow> bool" where
  "newestFirst xs = sorted_wrt (\<lambda>a b. createdAt b \<le> createdAt a) xs"

text \<open>The store's invariant: ids are unique and the list is newest first.\<close>

definition storeValid :: "HistoryItem list \<Rightarrow> bool" where
  "storeValid xs = (distinct (map id' xs) \<and> newestFirst xs)"

section \<open>Example values\<close>

text \<open>A failed request on 3 November 2026, an idle free-plan session and an empty store.\<close>

definition env0 :: Env where
  "env0 = \<lparr>today = ''2026-11-03'', now = 1000, uid = ''1000_9f3a'',
            response = Response False 429 (Some (JObj [(''error'', JStr ''quota exceeded'')])),
            storageWritable = True\<rparr>"

definition state0 :: AppState where
  "state0 = \<lparr>plan = Free, dailyCount = 0, idea = ''  build me a plan  '', presetSel = None,
              result = None, loading = False, error = JStr [], showUpgrade = False,
              history = [], activeHistoryId = None\<rparr>"

definition world0 :: World where
  "world0 = \<lparr>pap_usage = Missing, pap_history = Missing, requests = []\<rparr>"

text \<open>Usage records holding the daily limit, written the day before and on the day.\<close>

definition staleUsage :: json where
  "staleUsage = JObj [(''date'', JStr ''2026-11-02''), (''count'', JNum 3)]"

definition todayUsage :: json where
  "todayUsage = JObj [(''date'', JStr ''2026-11-03''), (''count'', JNum 3)]"

text \<open>A payload with the flat field and the structured fields together.\<close>

definition bothShapes :: json where
  "bothShapes = JObj [(''role'', JStr ''r''), (''prompt'', JStr '' Role: X ''),
                      (''task'', JStr ''t''), (''constraints'', JArr [JStr ''c'']),
                      (''follow_up_questions'', JArr [JStr ''Q1?''])]"

text \<open>
  A payload that names its follow-up list \<^verbatim>\<open>followUpQuestions\<close>, the key that the
  response schema of \<^verbatim>\<open>api/transformPrompt.ts\<close> requires.
\<close>

definition schemaShape :: json where
  "schemaShape = JObj [(''role'', JStr ''r''), (''task'', JStr ''t''),
                       (''followUpQuestions'', JArr [JStr ''Q1?''])]"

text \<open>A payload whose constraints are an object with an own property \<^verbatim>\<open>toString\<close>.\<close>

definition shadowed :: json where
  "shadowed = JObj [(''constraints'', JObj [(''toString'', JNum 1)])]"

text \<open>Fifteen entries, none saved, newest first, and a free-plan session holding them.\<close>

definition entry :: "string \<Rightarrow> int \<Rightarrow> HistoryItem" where
  "entry i t = \<lparr>id' = i, createdAt = t, preset = None, input = ''in'', output' = ''out'',
                followUps = [], saved = False\<rparr>"

definition history15 :: "HistoryItem list" where
  "history15 =
    [entry ''e15'' 15,
     entry ''e14'' 14,
     entry ''e13'' 13,
     entry ''e12'' 12,
     entry ''e11'' 11,
     entry ''e10'' 10,
     entry ''e09'' 9,
     entry ''e08'' 8,
     entry ''e07'' 7,
     entry ''e06'' 6,
     entry ''e05'' 5,
     entry ''e04'' 4,
     entry ''e03'' 3,
     entry ''e02'' 2,
     entry ''e01'' 1]"

definition state15 :: AppState where
  "state15 = state0\<lparr>history := history15\<rparr>"

text \<open>Twelve unsaved entries stored oldest first, and two entries that share an id.\<close>

definition history12 :: "HistoryItem list" where
  "history12 =
    [entry ''n01'' 1,
     entry ''n02'' 2,
     entry ''n03'' 3,
     entry ''n04'' 4,
     entry ''n05'' 5,
     entry ''n06'' 6,
     entry ''n07'' 7,
     entry ''n08'' 8,
     entry ''n09'' 9,
     entry ''n10'' 10,
     entry ''n11'' 11,
     entry ''n12'' 12]"

definition historyDup :: "HistoryItem list" where
  "historyDup = [entry ''d'' 2, entry ''d'' 1]"

text \<open>A successful response whose body is the payload \<open>shadowed\<close>.\<close>

definition envShadowed :: Env where
  "envShadowed = env0\<lparr>response := Response True 200 (Some shadowed)\<rparr>"

section \<open>Properties of the session controller\<close>

lemma string_of_nat_digit: "n < 10 \<Longrightarrow> string_of_nat n = [digit_char n]"
  by (subst string_of_nat.simps) simp

lemma trim_state0: "trim (idea state0) = ''build me a plan''"
  by (simp add: state0_def trim_def is_space_def)

lemma dailyLimitReached_text:
  "dailyLimitReached = ''Daily limit reached. Free plan allows 3 prompts/day. Upgrade for unlimited.''"
  by code_simp

text \<open>
  Claim C9. When the trimmed input is empty, \<open>handleArchitect\<close> clears the previous
  error and result, shows the message "Type something first." and stops: no request is
  sent and neither storage item is written (the world is returned as it was), and the
  usage count and the history are untouched.
\<close>

theorem empty_input_rejected:
  assumes "trim (idea s) = []"
  shows "handleArchitect env (s, w) = (s\<lparr>error := JStr ''Type something first.'', result := None\<rparr>, w)"
  using assms by (simp add: handleArchitect_def Let_def)

theorem empty_input_rejected_witness:
  "trim (idea (state0\<lparr>idea := ''   ''\<rparr>)) = [] \<and>
   handleArchitect env0 (state0\<lparr>idea := ''   ''\<rparr>, world0)
     = (state0\<lparr>idea := ''   '', error := JStr ''Type something first.'', result := None\<rparr>, world0)"
proof -
  have t: "trim (idea (state0\<lparr>idea := ''   ''\<rparr>)) = []"
    by (simp add: trim_def is_space_def)
  show ?thesis using t empty_input_rejected [OF t, of env0 world0] by simp
qed

text \<open>
  Claim C4. When the request is sent and the response has a non-success status with the
  body \<^verbatim>\<open>{"error": "quota exceeded"}\<close>, the message shown is exactly that text, the
  usage count and the history stay as they were, and neither storage item is written.
\<close>

theorem remote_error_passthrough:
  assumes "trim (idea s) \<noteq> []" and "canGenerate (plan s) (dailyCount s)"
    and "response env = Response False status (Some (JObj [(''error'', JStr ''quota exceeded'')]))"
  shows "error (fst (handleArchitect env (s, w))) = JStr ''quota exceeded''
       \<and> dailyCount (fst (handleArchitect env (s, w))) = dailyCount s
       \<and> history (fst (handleArchitect env (s, w))) = history s
       \<and> pap_usage (snd (handleArchitect env (s, w))) = pap_usage w
       \<and> pap_history (snd (handleArchitect env (s, w))) = pap_history w"
  using assms by (simp add: handleArchitect_def Let_def)

theorem remote_error_passthrough_witness:
  "error (fst (handleArchitect env0 (state0, world0))) = JStr ''quota exceeded''
   \<and> dailyCount (fst (handleArchitect env0 (state0, world0))) = 0
   \<and> history (fst (handleArchitect env0 (state0, world0))) = []
   \<and> pap_usage (snd (handleArchitect env0 (state0, world0))) = Missing
   \<and> pap_history (snd (handleArchitect env0 (state0, world0))) = Missing"
proof -
  have a: "trim (idea state0) \<noteq> []" by (simp add: trim_state0)
  have b: "canGenerate (plan state0) (dailyCount state0)"
    by (simp add: state0_def canGenerate_def FREE_DAILY_LIMIT_def)
  have c: "response env0 = Response False 429 (Some (JObj [(''error'', JStr ''quota exceeded'')]))"
    by (simp add: env0_def)
  show ?thesis using remote_error_passthrough [OF a b c, of world0]
    by (simp add: state0_def world0_def)
qed

text \<open>
  Claim C3 as stated fails: a stored record with \<open>count = FREE_DAILY_LIMIT\<close> whose date
  is not today reads as 0, the quota check passes and the request is sent.
\<close>

theorem quota_stale_record_counterexample:
  "get_prop staleUsage ''count'' = Some (JNum FREE_DAILY_LIMIT)
   \<and> readUsage (Parsed staleUsage) (today env0) = 0
   \<and> canGenerate Free (readUsage (Parsed staleUsage) (today env0))
   \<and> requests (snd (handleArchitect env0
         (state0\<lparr>dailyCount := readUsage (Parsed staleUsage) (today env0)\<rparr>, world0)))
       = [''build me a plan'']"
  by (simp add: staleUsage_def env0_def readUsage_def truthy_opt_def canGenerate_def
      FREE_DAILY_LIMIT_def handleArchitect_def Let_def trim_state0 world0_def)

lemma requests_bumpUsage: "requests (snd (bumpUsage env (s, w))) = requests w"
  by (simp add: bumpUsage_def writeUsage_def Let_def)

lemma requests_saveToHistory:
  "requests (snd (saveToHistory env inp outp fups (s, w))) = requests w"
  by (simp add: saveToHistory_def writeHistory_def Let_def)

text \<open>Past both gates the handler sends exactly one request, whatever comes back.\<close>

lemma request_sent:
  assumes "trim (idea s) \<noteq> []" and "canGenerate (plan s) (dailyCount s)"
  shows "requests (snd (handleArchitect env (s, w))) = requests w @ [trim (idea s)]"
  using assms
  by (simp add: handleArchitect_def Let_def case_prod_beta requests_bumpUsage
      requests_saveToHistory split: fetch_outcome.splits sum.splits)

text \<open>
  Claim C3, amended. Take a free-plan session whose count was read from a stored record.
  If the record is dated today and holds \<open>count = FREE_DAILY_LIMIT\<close>, the quota check
  fails and a generation attempt with non-blank input is rejected with the daily-limit
  message and the upgrade prompt, before any request or storage write. If the record's
  date is anything but today, it reads as 0 whatever count it holds, the quota check
  passes, and an attempt with non-blank input sends its request.
\<close>

theorem quota_rejects_today:
  assumes "plan s = Free" and "dailyCount s = readUsage (Parsed parsed) today'"
  shows "(get_prop parsed ''date'' = Some (JStr today') \<and> today' \<noteq> []
            \<and> get_prop parsed ''count'' = Some (JNum FREE_DAILY_LIMIT) \<longrightarrow>
          \<not> canGenerate (plan s) (dailyCount s)
          \<and> (trim (idea s) \<noteq> [] \<longrightarrow>
               handleArchitect env (s, w)
                 = (s\<lparr>error := JStr dailyLimitReached, result := None, showUpgrade := True\<rparr>, w)))
       \<and> (get_prop parsed ''date'' \<noteq> Some (JStr today') \<longrightarrow>
          readUsage (Parsed parsed) today' = 0
          \<and> canGenerate (plan s) (dailyCount s)
          \<and> (trim (idea s) \<noteq> [] \<longrightarrow>
               requests (snd (handleArchitect env (s, w))) = requests w @ [trim (idea s)]))"
proof (intro conjI impI)
  assume a: "get_prop parsed ''date'' = Some (JStr today') \<and> today' \<noteq> []
            \<and> get_prop parsed ''count'' = Some (JNum FREE_DAILY_LIMIT)"
  with assms show no: "\<not> canGenerate (plan s) (dailyCount s)"
    by (simp add: readUsage_def truthy_opt_def canGenerate_def FREE_DAILY_LIMIT_def)
  assume "trim (idea s) \<noteq> []"
  with no show "handleArchitect env (s, w)
                 = (s\<lparr>error := JStr dailyLimitReached, result := None, showUpgrade := True\<rparr>, w)"
    by (simp add: handleArchitect_def Let_def)
next
  assume b: "get_prop parsed ''date'' \<noteq> Some (JStr today')"
  then show z: "readUsage (Parsed parsed) today' = 0"
    by (simp add: readUsage_def split: option.splits json.splits)
  with assms show can: "canGenerate (plan s) (dailyCount s)"
    by (simp add: canGenerate_def FREE_DAILY_LIMIT_def)
  assume "trim (idea s) \<noteq> []"
  then show "requests (snd (handleArchitect env (s, w))) = requests w @ [trim (idea s)]"
    using can by (rule request_sent)
qed

theorem quota_rejects_today_witness:
  "\<not> canGenerate Free 3
   \<and> handleArchitect env0 (state0\<lparr>dailyCount := 3\<rparr>, world0)
       = (state0\<lparr>dailyCount := 3, error := JStr dailyLimitReached, result := None,
                  showUpgrade := True\<rparr>, world0)
   \<and> readUsage (Parsed staleUsage) ''2026-11-03'' = 0
   \<and> canGenerate Free 0
   \<and> requests (snd (handleArchitect env0 (state0, world0))) = [''build me a plan'']"
proof -
  have a: "get_prop todayUsage ''date'' = Some (JStr ''2026-11-03'') \<and> ''2026-11-03'' \<noteq> []
           \<and> get_prop todayUsage ''count'' = Some (JNum FREE_DAILY_LIMIT)"
    by (simp add: todayUsage_def FREE_DAILY_LIMIT_def)
  have d: "plan (state0\<lparr>dailyCount := 3\<rparr>) = Free" by (simp add: state0_def)
  have e: "dailyCount (state0\<lparr>dailyCount := 3\<rparr>) = readUsage (Parsed todayUsage) ''2026-11-03''"
    by (simp add: readUsage_def todayUsage_def truthy_opt_def)
  have f: "trim (idea (state0\<lparr>dailyCount := 3\<rparr>)) \<noteq> []"
    using trim_state0 by simp
  have today: "\<not> canGenerate Free 3
     \<and> handleArchitect env0 (state0\<lparr>dailyCount := 3\<rparr>, world0)
       = (state0\<lparr>dailyCount := 3, error := JStr dailyLimitReached, result := None,
                  showUpgrade := True\<rparr>, world0)"
    using quota_rejects_today [OF d e, of env0 world0] a f d by simp
  have g: "get_prop staleUsage ''date'' \<noteq> Some (JStr ''2026-11-03'')"
    by (simp add: staleUsage_def)
  have d': "plan state0 = Free" and c0: "dailyCount state0 = 0" and r0: "requests world0 = []"
    by (simp_all add: state0_def world0_def)
  have z: "readUsage (Parsed staleUsage) ''2026-11-03'' = 0"
    by (simp add: readUsage_def staleUsage_def)
  have e': "dailyCount state0 = readUsage (Parsed staleUsage) ''2026-11-03''"
    by (simp only: c0 z)
  have f': "trim (idea state0) \<noteq> []" by (simp add: trim_state0)
  have stale: "readUsage (Parsed staleUsage) ''2026-11-03'' = 0 \<and> canGenerate Free 0
     \<and> requests (snd (handleArchitect env0 (state0, world0))) = [''build me a plan'']"
    using quota_rejects_today [OF d' e', of env0 world0] g f' d' c0 r0 trim_state0 by simp
  from today stale show ?thesis by blast
qed

text \<open>
  Claim C7. For a stored usage record whose date is not today's \<^verbatim>\<open>YYYY-MM-DD\<close> key,
  the free plan has the full \<open>FREE_DAILY_LIMIT\<close> remaining, whatever count is stored.
\<close>

theorem stale_record_full_quota:
  assumes "get_prop parsed ''date'' \<noteq> Some (JStr today')"
  shows "remaining Free (readUsage (Parsed parsed) today') = Some FREE_DAILY_LIMIT"
  using assms
  by (simp add: readUsage_def remaining_def FREE_DAILY_LIMIT_def
      split: option.splits json.splits)

theorem stale_record_full_quota_witness:
  "get_prop staleUsage ''date'' \<noteq> Some (JStr ''2026-11-03'')
   \<and> remaining Free (readUsage (Parsed staleUsage) ''2026-11-03'') = Some 3"
proof -
  have a: "get_prop staleUsage ''date'' \<noteq> Some (JStr ''2026-11-03'')"
    by (simp add: staleUsage_def)
  show ?thesis using a stale_record_full_quota [OF a]
    by (simp add: FREE_DAILY_LIMIT_def)
qed

section \<open>Properties of the normalizer\<close>

text \<open>
  Claim C5. A payload whose \<^verbatim>\<open>prompt\<close> field is a string that is not blank is
  normalized to that string trimmed, whatever its other fields hold.
\<close>

theorem flat_prompt_wins:
  assumes "get_prop data ''prompt'' = Some (JStr p)" and "trim p \<noteq> []"
  shows "toCopyReadyPrompt data = Inr (trim p)"
proof -
  from assms(1) obtain kvs where "data = JObj kvs" by (cases data) simp_all
  then have "truthy data" by simp
  with assms show ?thesis by (simp add: toCopyReadyPrompt_def nonblank_def)
qed

theorem flat_prompt_wins_witness:
  "get_prop bothShapes ''prompt'' = Some (JStr '' Role: X '') \<and> trim '' Role: X '' \<noteq> []
   \<and> toCopyReadyPrompt bothShapes = Inr ''Role: X''"
proof -
  have a: "get_prop bothShapes ''prompt'' = Some (JStr '' Role: X '')"
    by (simp add: bothShapes_def)
  have b: "trim '' Role: X '' = ''Role: X''" by (simp add: trim_def is_space_def)
  have c: "trim '' Role: X '' \<noteq> []" by (simp add: b)
  show ?thesis using a c flat_prompt_wins [OF a c] by (simp add: b)
qed

text \<open>
  Claim C6. On the multi-field payload
  \<^verbatim>\<open>{role: "r", task: "t", followUpQuestions: ["Q1?"]}\<close> the follow-up extraction
  returns no question, and the normalized prompt has no follow-up block: the key
  \<^verbatim>\<open>followUpQuestions\<close> is not among the keys probed.
\<close>

theorem followUpQuestions_key_not_probed:
  "followUpsFromResult schemaShape = []
   \<and> toCopyReadyPrompt schemaShape = Inr (''AI Role:'' @ NL @ ''r'' @ NL @ NL @ ''Task:'' @ NL @ ''t'')"
  by (simp add: followUpsFromResult_def schemaShape_def coalesce_def toCopyReadyPrompt_def
      nonblank_def pushBlock_def trim_def is_space_def NL_def)

lemma digit_char_values:
  "digit_char 0 = CHR ''0''" "digit_char 1 = CHR ''1''" "digit_char 2 = CHR ''2''"
  "digit_char 3 = CHR ''3''" "digit_char 4 = CHR ''4''" "digit_char 5 = CHR ''5''"
  "digit_char 6 = CHR ''6''" "digit_char 7 = CHR ''7''" "digit_char 8 = CHR ''8''"
  "digit_char 9 = CHR ''9''" "digit_char (Suc 0) = CHR ''1''"
  by code_simp+

lemma normalizer_examples:
  "toCopyReadyPrompt JNull = Inr ''No prompt generated.''"
  "toCopyReadyPrompt (JObj []) = Inr ''{}''"
  "toCopyReadyPrompt (JObj [(''prompt'', JStr ''x'')]) = Inr ''x''"
  "toCopyReadyPrompt (JObj [(''AI Role'', JStr ''r''), (''task'', JStr ''t'')])
     = Inr (''AI Role:'' @ NL @ ''r'' @ NL @ NL @ ''Task:'' @ NL @ ''t'')"
  "toCopyReadyPrompt (JArr [JNum 1, JNum 2, JNum 3])
     = Inr (''['' @ NL @ ''  1,'' @ NL @ ''  2,'' @ NL @ ''  3'' @ NL @ '']'')"
  by (simp_all add: toCopyReadyPrompt_def nonblank_def coalesce_def pushBlock_def trim_def
      is_space_def NL_def JSON_stringify_def string_of_int_def string_of_nat_digit digit_char_values)

lemma toCopyReadyPrompt_throws_aux: "toCopyReadyPrompt shadowed = Inl no_primitive"
  by (simp add: toCopyReadyPrompt_def shadowed_def nonblank_def coalesce_def pushBlock_def)

text \<open>
  Claim C1. The normalizer is not total: on the payload
  \<^verbatim>\<open>{"constraints": {"toString": 1}}\<close> it returns no string, because
  \<^verbatim>\<open>String(constraints)\<close> throws a TypeError. (It does return a non-empty string
  whenever its three block values are printable, see
  \<open>toCopyReadyPrompt_total_when_printable\<close> below, and on the five payloads of
  \<open>normalizer_examples\<close>.)
\<close>

theorem toCopyReadyPrompt_throws:
  "toCopyReadyPrompt (JObj [(''constraints'', JObj [(''toString'', JNum 1)])])
     = Inl (TypeError ''Cannot convert object to primitive value'')"
  by (simp add: toCopyReadyPrompt_def nonblank_def coalesce_def pushBlock_def no_primitive_def)

text \<open>
  In the handler the exception is caught after \<^verbatim>\<open>bumpUsage\<close> has run: the attempt is
  counted and stored, no history entry is made, and the exception's message is shown.
\<close>

lemma shadowed_payload_in_handler:
  "dailyCount (fst (handleArchitect envShadowed (state0, world0))) = 1
   \<and> history (fst (handleArchitect envShadowed (state0, world0))) = []
   \<and> error (fst (handleArchitect envShadowed (state0, world0)))
       = JStr ''Cannot convert object to primitive value''
   \<and> pap_usage (snd (handleArchitect envShadowed (state0, world0)))
       = Parsed (JObj [(''date'', JStr ''2026-11-03''), (''count'', JNum 1)])
   \<and> pap_history (snd (handleArchitect envShadowed (state0, world0))) = Missing"
  by (simp add: handleArchitect_def Let_def trim_state0 envShadowed_def env0_def
      toCopyReadyPrompt_throws_aux bumpUsage_def writeUsage_def caughtMessage_def no_primitive_def
      canGenerate_def FREE_DAILY_LIMIT_def)
    (simp add: state0_def world0_def)

lemma collect_Inr:
  "\<forall>r\<in>set rs. \<exists>x. r = Inr x \<Longrightarrow> \<exists>xs. collect rs = Inr xs"
  by (induction rs) auto

lemma printable_ToString: "printable v \<Longrightarrow> \<exists>t. ToString v = Inr t"
proof (induction v)
  case (JArr xs)
  have "\<forall>r\<in>set (map (\<lambda>x. if x = JNull then Inr [] else ToString x) xs). \<exists>t. r = Inr t"
    using JArr by (auto simp add: list_all_iff)
  then obtain ts where "collect (map (\<lambda>x. if x = JNull then Inr [] else ToString x) xs) = Inr ts"
    using collect_Inr by blast
  then show ?case by simp
qed simp_all

lemma pushBlock_ok: "block_ok v \<Longrightarrow> \<exists>ls. pushBlock heading v = Inr ls"
proof (cases v)
  case None
  then show ?thesis by (simp add: pushBlock_def)
next
  case (Some x)
  assume ok: "block_ok v"
  show ?thesis
  proof (cases x)
    case (JArr xs)
    with ok Some have "\<forall>r\<in>set (map ToString xs). \<exists>t. r = Inr t"
      by (auto simp add: block_ok_def list_all_iff dest: printable_ToString)
    then obtain ts where "collect (map ToString xs) = Inr ts"
      using collect_Inr by blast
    with Some JArr show ?thesis by (simp add: pushBlock_def)
  qed (use ok Some in \<open>auto simp add: pushBlock_def block_ok_def dest: printable_ToString\<close>)
qed

lemma string_of_nat_nonempty: "string_of_nat n \<noteq> []"
  by (subst string_of_nat.simps) simp

lemma stringify_nonempty: "stringify ind v \<noteq> []"
  by (cases v) (simp_all add: string_of_int_def string_of_nat_nonempty quote_def)

lemma toCopyReadyPrompt_total_when_printable:
  assumes "block_ok (coalesce (get_prop data ''Constraints'') (get_prop data ''constraints''))"
    and "block_ok (coalesce (coalesce (get_prop data ''Output Format'') (get_prop data ''output_format''))
                    (get_prop data ''outputFormat''))"
    and "block_ok (coalesce (coalesce (get_prop data ''Follow-up Questions'')
                    (get_prop data ''follow_up_questions'')) (get_prop data ''followUps''))"
  shows "\<exists>t. toCopyReadyPrompt data = Inr t \<and> t \<noteq> []"
proof -
  obtain cs where cs: "pushBlock (NL @ ''Constraints:'')
      (coalesce (get_prop data ''Constraints'') (get_prop data ''constraints'')) = Inr cs"
    using pushBlock_ok [OF assms(1)] by blast
  obtain os where os: "pushBlock (NL @ ''Output Format:'')
      (coalesce (coalesce (get_prop data ''Output Format'') (get_prop data ''output_format''))
                    (get_prop data ''outputFormat'')) = Inr os"
    using pushBlock_ok [OF assms(2)] by blast
  obtain fs where fs: "pushBlock (NL @ ''Follow-up Questions (max 2):'')
      (coalesce (coalesce (get_prop data ''Follow-up Questions'')
                    (get_prop data ''follow_up_questions'')) (get_prop data ''followUps'')) = Inr fs"
    using pushBlock_ok [OF assms(3)] by blast
  have n: "JSON_stringify data \<noteq> []"
    by (simp add: JSON_stringify_def stringify_nonempty)
  show ?thesis
  proof (cases "truthy data")
    case False
    then show ?thesis by (simp add: toCopyReadyPrompt_def)
  next
    case True
    show ?thesis
    proof (cases "nonblank (get_prop data ''prompt'')")
      case None
      with True cs os fs n show ?thesis
        by (simp add: toCopyReadyPrompt_def Let_def)
    next
      case (Some p)
      then have "p \<noteq> []"
        by (auto simp add: nonblank_def split: option.splits json.splits if_splits)
      with True Some show ?thesis by (simp add: toCopyReadyPrompt_def)
    qed
  qed
qed

section \<open>Properties of the stored history\<close>

text \<open>
  Claim C8. A stored array of non-object elements does not read as the empty history:
  \<^verbatim>\<open>[1, "x"]\<close> is returned as it is, and for each of its elements the list render's
  read of \<^verbatim>\<open>h.input.length\<close> throws.
\<close>

theorem readHistory_keeps_non_objects:
  "readHistory (Parsed (JArr [JNum 1, JStr ''x''])) = [JNum 1, JStr ''x'']
   \<and> inputLengthThrows (JNum 1) \<and> inputLengthThrows (JStr ''x'')"
  by (simp add: readHistory_def inputLengthThrows_def)

text \<open>The other half of the claim holds: what is not an array reads as the empty history.\<close>

lemma readHistory_not_array: "(\<forall>xs. raw \<noteq> Parsed (JArr xs)) \<Longrightarrow> readHistory raw = []"
  by (auto simp add: readHistory_def split: raw_item.splits json.splits)

section \<open>Properties of the history store\<close>

lemma newestFirst_sorted: "newestFirst xs = sorted (map (\<lambda>x. - createdAt x) xs)"
  by (simp add: newestFirst_def sorted_map)

lemma newestFirst_sortDesc: "newestFirst (sortDesc xs)"
  by (simp add: newestFirst_sorted sortDesc_def)

lemma sortDesc_id: "newestFirst xs \<Longrightarrow> sortDesc xs = xs"
  by (simp add: newestFirst_sorted sortDesc_def sort_key_id_if_sorted)

lemma newestFirst_take_filter: "newestFirst xs \<Longrightarrow> newestFirst (take n (filter P xs))"
  by (simp add: newestFirst_def sorted_wrt_filter)

lemma ids_sortDesc: "distinct (map id' (sortDesc xs)) = distinct (map id' xs)"
proof -
  have "mset (map id' (sortDesc xs)) = mset (map id' xs)"
    by (simp add: sortDesc_def)
  then show ?thesis by (rule mset_eq_imp_distinct_iff)
qed

lemma update_fresh: "k \<notin> fst ` set al \<Longrightarrow> AList.update k v al = al @ [(k, v)]"
  by (induction al) auto

lemma fold_update_distinct:
  "distinct (map id' xs) \<Longrightarrow> id' ` set xs \<inter> fst ` set acc = {} \<Longrightarrow>
   fold (\<lambda>item m. AList.update (id' item) item m) xs acc = acc @ map (\<lambda>x. (id' x, x)) xs"
proof (induction xs arbitrary: acc)
  case Nil
  then show ?case by simp
next
  case (Cons x xs)
  from Cons.prems have fresh: "id' x \<notin> fst ` set acc" by auto
  have "id' ` set xs \<inter> fst ` set (acc @ [(id' x, x)]) = {}"
    using Cons.prems by auto
  with Cons.IH [of "acc @ [(id' x, x)]"] Cons.prems fresh show ?case
    by (simp add: update_fresh)
qed

lemma byIdValues_distinct: "distinct (map id' xs) \<Longrightarrow> byIdValues xs = xs"
  by (simp add: byIdValues_def fold_update_distinct comp_def)

lemma distinct_ids_merged:
  assumes "distinct (map id' xs)"
  shows "distinct (map id' (filter P xs @ take n (filter (\<lambda>x. \<not> P x) xs)))"
proof -
  from assms have d: "distinct xs" and inj: "inj_on id' (set xs)"
    by (simp_all add: distinct_map)
  have sub: "set (filter P xs @ take n (filter (\<lambda>x. \<not> P x) xs)) \<subseteq> set xs"
    by (auto dest: in_set_takeD)
  have "distinct (filter P xs @ take n (filter (\<lambda>x. \<not> P x) xs))"
    using d by (auto dest: in_set_takeD)
  with inj sub show ?thesis
    by (simp only: distinct_map) (blast intro: inj_on_subset)
qed

lemma enforce_free:
  assumes "distinct (map id' xs)"
  shows "enforceHistoryLimit Free xs
           = sortDesc (filter saved xs @ take FREE_HISTORY_LIMIT (filter (\<lambda>x. \<not> saved x) xs))"
  using distinct_ids_merged [OF assms, of saved FREE_HISTORY_LIMIT]
  by (simp add: enforceHistoryLimit_def Let_def byIdValues_distinct)

lemma filter_take_filter: "filter P (take n (filter P xs)) = take n (filter P xs)"
  by (rule filter_True) (auto dest: in_set_takeD)

lemma filter_not_take_filter: "filter (\<lambda>x. \<not> P x) (take n (filter P xs)) = []"
  by (rule filter_False) (auto dest: in_set_takeD)

lemma enforce_free_nonSaved:
  assumes "distinct (map id' xs)"
  shows "filter (\<lambda>x. \<not> saved x) (enforceHistoryLimit Free xs)
           = sortDesc (take FREE_HISTORY_LIMIT (filter (\<lambda>x. \<not> saved x) xs))"
  by (simp add: enforce_free [OF assms] sortDesc_def filter_sort filter_take_filter)

lemma enforce_free_saved:
  assumes "distinct (map id' xs)"
  shows "filter saved (enforceHistoryLimit Free xs) = sortDesc (filter saved xs)"
  using filter_not_take_filter [of "\<lambda>x. \<not> saved x" FREE_HISTORY_LIMIT xs]
  by (simp add: enforce_free [OF assms] sortDesc_def filter_sort)

lemma enforce_free_nonSaved_sorted:
  assumes "distinct (map id' xs)" and "newestFirst xs"
  shows "filter (\<lambda>x. \<not> saved x) (enforceHistoryLimit Free xs)
           = take FREE_HISTORY_LIMIT (filter (\<lambda>x. \<not> saved x) xs)"
  by (simp add: enforce_free_nonSaved [OF assms(1)] sortDesc_id newestFirst_take_filter assms(2))

lemma take_newest:
  assumes "newestFirst xs" and "x \<in> set (take n xs)" and "y \<in> set xs" and "y \<notin> set (take n xs)"
  shows "createdAt y \<le> createdAt x"
proof -
  have "set xs = set (take n xs) \<union> set (drop n xs)"
    by (metis append_take_drop_id set_append)
  with assms(3,4) have y: "y \<in> set (drop n xs)" by simp
  from assms(1) have "sorted_wrt (\<lambda>a b. createdAt b \<le> createdAt a) (take n xs @ drop n xs)"
    by (simp add: newestFirst_def)
  with assms(2) y show ?thesis
    unfolding sorted_wrt_append by blast
qed

lemma set_sortDesc: "set (sortDesc xs) = set xs"
  by (simp add: sortDesc_def)

lemma length_sortDesc: "length (sortDesc xs) = length xs"
  by (simp add: sortDesc_def)

lemma filter_sortDesc: "filter P (sortDesc xs) = sortDesc (filter P xs)"
  by (simp add: sortDesc_def filter_sort)

lemma newestFirst_take: "newestFirst xs \<Longrightarrow> newestFirst (take n xs)"
  by (simp add: newestFirst_def)

lemma newestFirst_filter: "newestFirst xs \<Longrightarrow> newestFirst (filter P xs)"
  by (simp add: newestFirst_def sorted_wrt_filter)

lemma length_filter_other_id:
  "distinct (map id' xs) \<Longrightarrow> length xs \<le> Suc (length (filter (\<lambda>x. id' x \<noteq> i) xs))"
proof (induction xs)
  case Nil
  then show ?case by simp
next
  case (Cons x xs)
  show ?case
  proof (cases "id' x = i")
    case True
    from Cons.prems have "id' x \<notin> id' ` set xs" by simp
    with True have "\<forall>y\<in>set xs. id' y \<noteq> i" by (metis imageI)
    then have "filter (\<lambda>x. id' x \<noteq> i) xs = xs" by (simp add: filter_True)
    with True show ?thesis by simp
  next
    case False
    with Cons show ?thesis by simp
  qed
qed

lemma nonSaved_after_flip:
  "\<forall>x\<in>set xs. \<not> saved x \<Longrightarrow>
   filter (\<lambda>x. \<not> saved x) (map (\<lambda>h. if id' h = i then h\<lparr>saved := \<not> saved h\<rparr> else h) xs)
     = filter (\<lambda>x. id' x \<noteq> i) xs"
  by (induction xs) auto

lemma ids_after_flip:
  "map id' (map (\<lambda>h. if id' h = i then h\<lparr>saved := \<not> saved h\<rparr> else h) xs) = map id' xs"
  by (induction xs) auto

lemma append_keeps_newest:
  assumes free: "plan s = Free" and unsaved: "\<forall>x\<in>set (history s). \<not> saved x"
    and ids: "distinct (map id' (history s))" and fresh: "uid env \<notin> id' ` set (history s)"
  shows "history (fst (saveToHistory env inp outp fups (s, w)))
           = take FREE_HISTORY_LIMIT (sortDesc (newItem env s inp outp fups # history s))"
proof -
  let ?item = "newItem env s inp outp fups"
  let ?xs = "sortDesc (?item # history s)"
  have d: "distinct (map id' ?xs)"
    using ids fresh by (simp add: ids_sortDesc) (simp add: newItem_def)
  have "\<forall>x\<in>set ?xs. \<not> saved x"
    using unsaved by (simp add: set_sortDesc newItem_def)
  then have f: "filter saved ?xs = []" and g: "filter (\<lambda>x. \<not> saved x) ?xs = ?xs"
    by (simp_all add: filter_False filter_True)
  have "enforceHistoryLimit Free ?xs = sortDesc (take FREE_HISTORY_LIMIT ?xs)"
    by (simp add: enforce_free [OF d] f g)
  also have "\<dots> = take FREE_HISTORY_LIMIT ?xs"
    by (rule sortDesc_id) (simp add: newestFirst_take newestFirst_sortDesc)
  finally show ?thesis using free by (simp add: saveToHistory_def Let_def)
qed

lemma toggle_keeps_newest:
  assumes free: "plan s = Free" and unsaved: "\<forall>x\<in>set (history s). \<not> saved x"
    and ids: "distinct (map id' (history s))"
  shows "filter (\<lambda>x. \<not> saved x) (history (fst (toggleSaved env i (s, w))))
           = take FREE_HISTORY_LIMIT (sortDesc (filter (\<lambda>x. id' x \<noteq> i) (history s)))"
proof -
  let ?next = "map (\<lambda>h. if id' h = i then h\<lparr>saved := \<not> saved h\<rparr> else h) (history s)"
  have d: "distinct (map id' (sortDesc ?next))"
    using ids by (simp only: ids_sortDesc ids_after_flip)
  have n: "filter (\<lambda>x. \<not> saved x) (sortDesc ?next) = sortDesc (filter (\<lambda>x. id' x \<noteq> i) (history s))"
    using nonSaved_after_flip [OF unsaved, of i] by (simp add: filter_sortDesc)
  have "filter (\<lambda>x. \<not> saved x) (enforceHistoryLimit Free (sortDesc ?next))
          = sortDesc (take FREE_HISTORY_LIMIT (sortDesc (filter (\<lambda>x. id' x \<noteq> i) (history s))))"
    by (simp only: enforce_free_nonSaved [OF d] n)
  also have "\<dots> = take FREE_HISTORY_LIMIT (sortDesc (filter (\<lambda>x. id' x \<noteq> i) (history s)))"
    by (rule sortDesc_id) (simp add: newestFirst_take newestFirst_sortDesc)
  finally show ?thesis using free by (simp add: toggleSaved_def Let_def)
qed

lemma clear_unsaved_empties:
  assumes "plan s = Free" and "\<forall>x\<in>set (history s). \<not> saved x"
  shows "history (fst (clearAllHistory env (s, w))) = []"
proof -
  from assms(2) have "filter saved (history s) = []" by (simp add: filter_False)
  with assms(1) show ?thesis
    by (simp add: clearAllHistory_def Let_def sortDesc_def enforceHistoryLimit_def byIdValues_def)
qed

text \<open>
  After a switch from Pro to Free the cut comes with the next append: whatever the
  history holds, an append under the free plan leaves at most \<open>FREE_HISTORY_LIMIT\<close>
  unsaved entries, the first ones of the newest-first order.
\<close>

lemma append_trims_nonSaved:
  assumes free: "plan s = Free" and ids: "distinct (map id' (history s))"
    and fresh: "uid env \<notin> id' ` set (history s)"
  shows "filter (\<lambda>x. \<not> saved x) (history (fst (saveToHistory env inp outp fups (s, w))))
           = take FREE_HISTORY_LIMIT
               (filter (\<lambda>x. \<not> saved x) (sortDesc (newItem env s inp outp fups # history s)))"
proof -
  have d: "distinct (map id' (sortDesc (newItem env s inp outp fups # history s)))"
    using ids fresh by (simp add: ids_sortDesc) (simp add: newItem_def)
  show ?thesis
    using free enforce_free_nonSaved_sorted [OF d newestFirst_sortDesc]
    by (simp add: saveToHistory_def Let_def)
qed

lemma state15_facts:
  "plan state15 = Free" "length (history state15) = 15"
  "\<forall>x\<in>set (history state15). \<not> saved x" "distinct (map id' (history state15))"
  "uid env0 \<notin> id' ` set (history state15)" "newestFirst (history state15)"
  by (simp_all add: state15_def state0_def history15_def entry_def env0_def newestFirst_def)

text \<open>
  Claim C2 as stated fails for two of the four operations: from fifteen unsaved entries
  under the free plan, deleting one entry leaves fourteen entries, all unsaved, and
  clearing leaves none.
\<close>

theorem retention_delete_clear_counterexample:
  "plan state15 = Free \<and> length (history state15) = 15 \<and> filter saved (history state15) = []
   \<and> length (history (fst (deleteHistoryItem env0 ''e01'' (state15, world0)))) = 14
   \<and> filter saved (history (fst (deleteHistoryItem env0 ''e01'' (state15, world0)))) = []
   \<and> history (fst (clearAllHistory env0 (state15, world0))) = []"
  by (simp add: state15_def state0_def history15_def entry_def deleteHistoryItem_def
      clearAllHistory_def Let_def enforceHistoryLimit_def sortDesc_def byIdValues_def)

text \<open>
  Claim C2, amended. Under the free plan, from a history of fifteen unsaved entries with
  distinct ids: after an append (of an entry with a fresh id) and after \<open>toggleSaved\<close>,
  exactly ten unsaved entries remain, and no unsaved entry left out is more recent than
  one that was kept; \<open>deleteHistoryItem\<close> removes the entries with the given id and
  nothing else, so at least fourteen remain; \<open>clearAllHistory\<close> leaves none.
\<close>

theorem retention_15_unsaved:
  assumes free: "plan s = Free" and len: "length (history s) = 15"
    and unsaved: "\<forall>x\<in>set (history s). \<not> saved x"
    and ids: "distinct (map id' (history s))" and fresh: "uid env \<notin> id' ` set (history s)"
  shows "(let kept = history (fst (saveToHistory env inp outp fups (s, w)))
          in length kept = 10 \<and> (\<forall>x\<in>set kept. \<not> saved x)
             \<and> set kept \<subseteq> set (newItem env s inp outp fups # history s)
             \<and> (\<forall>x\<in>set kept. \<forall>y\<in>set (newItem env s inp outp fups # history s).
                   y \<notin> set kept \<longrightarrow> createdAt y \<le> createdAt x))
       \<and> (let kept = filter (\<lambda>x. \<not> saved x) (history (fst (toggleSaved env i (s, w))))
          in length kept = 10 \<and> set kept \<subseteq> set (history s)
             \<and> (\<forall>x\<in>set kept. \<forall>y\<in>set (history s).
                   id' y \<noteq> i \<and> y \<notin> set kept \<longrightarrow> createdAt y \<le> createdAt x))
       \<and> history (fst (deleteHistoryItem env i (s, w))) = filter (\<lambda>h. id' h \<noteq> i) (history s)
       \<and> 14 \<le> length (history (fst (deleteHistoryItem env i (s, w))))
       \<and> history (fst (clearAllHistory env (s, w))) = []"
proof -
  let ?cand = "newItem env s inp outp fups # history s"
  let ?a = "history (fst (saveToHistory env inp outp fups (s, w)))"
  have a: "?a = take FREE_HISTORY_LIMIT (sortDesc ?cand)"
    by (rule append_keeps_newest [OF free unsaved ids fresh])
  have a1: "length ?a = 10" using len by (simp add: a FREE_HISTORY_LIMIT_def length_sortDesc)
  have a2: "set ?a \<subseteq> set ?cand"
    unfolding a using set_take_subset [of FREE_HISTORY_LIMIT "sortDesc ?cand"]
    by (simp only: set_sortDesc)
  have a3: "\<forall>x\<in>set ?a. \<not> saved x"
    using a2 unsaved by (auto simp add: newItem_def)
  have a4: "\<forall>x\<in>set ?a. \<forall>y\<in>set ?cand. y \<notin> set ?a \<longrightarrow> createdAt y \<le> createdAt x"
    unfolding a using take_newest [OF newestFirst_sortDesc, of _ FREE_HISTORY_LIMIT ?cand]
    by (simp only: set_sortDesc) blast
  let ?others = "filter (\<lambda>x. id' x \<noteq> i) (history s)"
  let ?b = "filter (\<lambda>x. \<not> saved x) (history (fst (toggleSaved env i (s, w))))"
  have b: "?b = take FREE_HISTORY_LIMIT (sortDesc ?others)"
    by (rule toggle_keeps_newest [OF free unsaved ids])
  have many: "14 \<le> length ?others"
    using length_filter_other_id [OF ids, of i] len by simp
  have b1: "length ?b = 10" using many by (simp add: b FREE_HISTORY_LIMIT_def length_sortDesc)
  have b2: "set ?b \<subseteq> set (history s)"
    unfolding b using set_take_subset [of FREE_HISTORY_LIMIT "sortDesc ?others"]
    by (auto simp add: set_sortDesc)
  have b3: "\<forall>x\<in>set ?b. \<forall>y\<in>set (history s). id' y \<noteq> i \<and> y \<notin> set ?b \<longrightarrow> createdAt y \<le> createdAt x"
    unfolding b using take_newest [OF newestFirst_sortDesc, of _ FREE_HISTORY_LIMIT ?others]
    by (simp add: set_sortDesc)
  have c: "history (fst (deleteHistoryItem env i (s, w))) = ?others"
    by (simp add: deleteHistoryItem_def Let_def)
  have e: "history (fst (clearAllHistory env (s, w))) = []"
    by (rule clear_unsaved_empties [OF free unsaved])
  show ?thesis
    unfolding Let_def using a1 a2 a3 a4 b1 b2 b3 c many e by (simp only: simp_thms)
qed

theorem retention_15_unsaved_witness:
  "length (history (fst (saveToHistory env0 ''in'' ''out'' [] (state15, world0)))) = 10
   \<and> length (filter (\<lambda>x. \<not> saved x)
        (history (fst (toggleSaved env0 ''e03'' (state15, world0))))) = 10
   \<and> 14 \<le> length (history (fst (deleteHistoryItem env0 ''e03'' (state15, world0))))
   \<and> history (fst (clearAllHistory env0 (state15, world0))) = []"
  using retention_15_unsaved [OF state15_facts(1-5), of "''in''" "''out''" "[]" world0 "''e03''",
      unfolded Let_def]
  by blast

text \<open>
  Claim C10 as stated fails for some histories: from Free to Pro the button cuts the
  unsaved entries to the first ten in stored order, so on twelve entries stored oldest
  first the two newest are dropped, and of two entries that share an id only the older
  one is left.
\<close>

theorem plan_toggle_unsorted_counterexample:
  "plan state0 = Free
   \<and> history (fst (togglePlan env0 (state0\<lparr>history := history12\<rparr>, world0)))
     = [entry ''n10'' 10, entry ''n09'' 9, entry ''n08'' 8, entry ''n07'' 7, entry ''n06'' 6,
        entry ''n05'' 5, entry ''n04'' 4, entry ''n03'' 3, entry ''n02'' 2, entry ''n01'' 1]
   \<and> history (fst (togglePlan env0 (state0\<lparr>history := historyDup\<rparr>, world0)))
     = [entry ''d'' 1]"
  by (simp add: togglePlan_def Let_def state0_def history12_def historyDup_def entry_def
      enforceHistoryLimit_def FREE_HISTORY_LIMIT_def byIdValues_def sortDesc_def)

text \<open>
  Claim C10, amended. For every plan and history, the plan button flips the plan and
  replaces the history by \<open>enforceHistoryLimit\<close> evaluated under the plan in effect
  before the click. From Pro to Free the history is left as it is, however many unsaved
  entries it holds. From Free to Pro, on a history with distinct ids that is stored
  newest first, the unsaved entries are cut to the first \<open>FREE_HISTORY_LIMIT\<close>, none
  of those left out is more recent than one that was kept, and the saved entries all
  stay.
\<close>

theorem plan_toggle_enforces_old_plan:
  "history (fst (togglePlan env (s, w))) = enforceHistoryLimit (plan s) (history s)
   \<and> plan (fst (togglePlan env (s, w))) = (if plan s = Free then Pro else Free)
   \<and> (plan s = Pro \<longrightarrow> history (fst (togglePlan env (s, w))) = history s)
   \<and> (plan s = Free \<and> distinct (map id' (history s)) \<and> newestFirst (history s) \<longrightarrow>
        (let kept = filter (\<lambda>x. \<not> saved x) (history (fst (togglePlan env (s, w))))
         in kept = take FREE_HISTORY_LIMIT (filter (\<lambda>x. \<not> saved x) (history s))
            \<and> (\<forall>x\<in>set kept. \<forall>y\<in>set (history s).
                  \<not> saved y \<and> y \<notin> set kept \<longrightarrow> createdAt y \<le> createdAt x))
        \<and> filter saved (history (fst (togglePlan env (s, w)))) = filter saved (history s))"
proof -
  have h: "history (fst (togglePlan env (s, w))) = enforceHistoryLimit (plan s) (history s)"
    by (simp add: togglePlan_def Let_def)
  have p: "plan (fst (togglePlan env (s, w))) = (if plan s = Free then Pro else Free)"
    by (simp add: togglePlan_def Let_def)
  have pro: "plan s = Pro \<longrightarrow> history (fst (togglePlan env (s, w))) = history s"
    by (simp add: h enforceHistoryLimit_def)
  have free: "let kept = filter (\<lambda>x. \<not> saved x) (history (fst (togglePlan env (s, w))))
         in kept = take FREE_HISTORY_LIMIT (filter (\<lambda>x. \<not> saved x) (history s))
            \<and> (\<forall>x\<in>set kept. \<forall>y\<in>set (history s).
                  \<not> saved y \<and> y \<notin> set kept \<longrightarrow> createdAt y \<le> createdAt x)"
    and sv: "filter saved (history (fst (togglePlan env (s, w)))) = filter saved (history s)"
    if a: "plan s = Free" and d: "distinct (map id' (history s))" and n: "newestFirst (history s)"
  proof -
    let ?ns = "filter (\<lambda>x. \<not> saved x) (history s)"
    have k: "filter (\<lambda>x. \<not> saved x) (history (fst (togglePlan env (s, w))))
               = take FREE_HISTORY_LIMIT ?ns"
      by (simp add: h a enforce_free_nonSaved_sorted [OF d n])
    have r: "\<forall>x\<in>set (take FREE_HISTORY_LIMIT ?ns). \<forall>y\<in>set (history s).
               \<not> saved y \<and> y \<notin> set (take FREE_HISTORY_LIMIT ?ns) \<longrightarrow> createdAt y \<le> createdAt x"
      using take_newest [OF newestFirst_filter [OF n], of _ FREE_HISTORY_LIMIT "\<lambda>x. \<not> saved x"]
      by simp
    show "let kept = filter (\<lambda>x. \<not> saved x) (history (fst (togglePlan env (s, w))))
         in kept = take FREE_HISTORY_LIMIT (filter (\<lambda>x. \<not> saved x) (history s))
            \<and> (\<forall>x\<in>set kept. \<forall>y\<in>set (history s).
                  \<not> saved y \<and> y \<notin> set kept \<longrightarrow> createdAt y \<le> createdAt x)"
      unfolding Let_def k using r by simp
    show "filter saved (history (fst (togglePlan env (s, w)))) = filter saved (history s)"
      by (simp add: h a enforce_free_saved [OF d] sortDesc_id newestFirst_filter [OF n])
  qed
  from h p pro free sv show ?thesis by blast
qed

theorem plan_toggle_enforces_old_plan_witness:
  "history (fst (togglePlan env0 (state15\<lparr>plan := Pro\<rparr>, world0))) = history15
   \<and> plan (fst (togglePlan env0 (state15\<lparr>plan := Pro\<rparr>, world0))) = Free
   \<and> length (enforceHistoryLimit Free history15) = 10
   \<and> plan (fst (togglePlan env0 (state15, world0))) = Pro
   \<and> history (fst (togglePlan env0 (state15, world0))) = take 10 history15"
proof -
  have u: "filter (\<lambda>x. \<not> saved x) history15 = history15" and v: "filter saved history15 = []"
    by (simp_all add: history15_def entry_def)
  have pro: "plan (state15\<lparr>plan := Pro\<rparr>) = Pro" and h: "history (state15\<lparr>plan := Pro\<rparr>) = history15"
    and h': "history state15 = history15"
    by (simp_all add: state15_def)
  have ten: "length (enforceHistoryLimit Free history15) = 10"
    using state15_facts(2,4) by (simp add: h' enforce_free v u FREE_HISTORY_LIMIT_def length_sortDesc)
  note toPro = plan_toggle_enforces_old_plan [of env0 state15 world0, unfolded Let_def]
  note toFree = plan_toggle_enforces_old_plan [of env0 "state15\<lparr>plan := Pro\<rparr>" world0]
  from toPro state15_facts(1,4,6)
  have "filter (\<lambda>x. \<not> saved x) (history (fst (togglePlan env0 (state15, world0))))
          = take FREE_HISTORY_LIMIT (filter (\<lambda>x. \<not> saved x) (history state15))"
    and "filter saved (history (fst (togglePlan env0 (state15, world0))))
          = filter saved (history state15)"
    by blast+
  then have "filter (\<lambda>x. \<not> saved x) (history (fst (togglePlan env0 (state15, world0))))
          = take 10 history15"
    and "filter saved (history (fst (togglePlan env0 (state15, world0)))) = []"
    by (simp_all only: h' u v FREE_HISTORY_LIMIT_def)
  then have all: "history (fst (togglePlan env0 (state15, world0))) = take 10 history15"
    by (metis filter_True filter_empty_conv)
  from toPro state15_facts(1) have p1: "plan (fst (togglePlan env0 (state15, world0))) = Pro"
    by simp
  from toFree pro
  have "history (fst (togglePlan env0 (state15\<lparr>plan := Pro\<rparr>, world0)))
          = history (state15\<lparr>plan := Pro\<rparr>)"
    by blast
  then have p2: "history (fst (togglePlan env0 (state15\<lparr>plan := Pro\<rparr>, world0))) = history15"
    by (simp only: h)
  from toFree
  have "plan (fst (togglePlan env0 (state15\<lparr>plan := Pro\<rparr>, world0)))
          = (if plan (state15\<lparr>plan := Pro\<rparr>) = Free then Pro else Free)"
    by blast
  then have p3: "plan (fst (togglePlan env0 (state15\<lparr>plan := Pro\<rparr>, world0))) = Free"
    by (simp add: pro)
  from p2 p3 ten p1 all show ?thesis by blast
qed

text \<open>
  The hypotheses of the Free-to-Pro case are the store's invariant: every handler that
  changes the history keeps it, and the empty history of a fresh session has it.
\<close>

lemma enforce_keeps_storeValid:
  assumes "storeValid xs"
  shows "storeValid (enforceHistoryLimit p xs)"
proof (cases p)
  case Pro
  with assms show ?thesis by (simp add: enforceHistoryLimit_def)
next
  case Free
  from assms have d: "distinct (map id' xs)" by (simp add: storeValid_def)
  show ?thesis
    using distinct_ids_merged [OF d, of saved FREE_HISTORY_LIMIT]
    by (simp add: Free enforce_free [OF d] storeValid_def ids_sortDesc newestFirst_sortDesc)
qed

lemma storeValid_sortDesc: "distinct (map id' xs) \<Longrightarrow> storeValid (sortDesc xs)"
  by (simp add: storeValid_def ids_sortDesc newestFirst_sortDesc)

lemma storeValid_filter: "storeValid xs \<Longrightarrow> storeValid (filter P xs)"
  by (simp add: storeValid_def newestFirst_filter distinct_map_filter)

lemma handlers_keep_storeValid:
  assumes v: "storeValid (history s)"
  shows "uid env \<notin> id' ` set (history s) \<Longrightarrow>
           storeValid (history (fst (saveToHistory env inp outp fups (s, w))))"
    and "storeValid (history (fst (toggleSaved env i (s, w))))"
    and "storeValid (history (fst (deleteHistoryItem env i (s, w))))"
    and "storeValid (history (fst (clearAllHistory env (s, w))))"
    and "storeValid (history (fst (togglePlan env (s, w))))"
proof -
  from v have d: "distinct (map id' (history s))" by (simp add: storeValid_def)
  show "storeValid (history (fst (saveToHistory env inp outp fups (s, w))))"
    if "uid env \<notin> id' ` set (history s)"
  proof -
    have "distinct (map id' (newItem env s inp outp fups # history s))"
      using d that by (simp add: newItem_def)
    then show ?thesis
      by (simp add: saveToHistory_def Let_def enforce_keeps_storeValid storeValid_sortDesc)
  qed
  have "distinct (map id' (map (\<lambda>h. if id' h = i then h\<lparr>saved := \<not> saved h\<rparr> else h) (history s)))"
    using d by (simp only: ids_after_flip)
  then show "storeValid (history (fst (toggleSaved env i (s, w))))"
    by (simp add: toggleSaved_def Let_def enforce_keeps_storeValid storeValid_sortDesc)
  show "storeValid (history (fst (deleteHistoryItem env i (s, w))))"
    using v by (simp add: deleteHistoryItem_def Let_def storeValid_filter)
  have "distinct (map id' (filter saved (history s)))"
    using d by (simp add: distinct_map_filter)
  then show "storeValid (history (fst (clearAllHistory env (s, w))))"
    by (simp add: clearAllHistory_def Let_def enforce_keeps_storeValid storeValid_sortDesc)
  show "storeValid (history (fst (togglePlan env (s, w))))"
    using v by (simp add: togglePlan_def Let_def enforce_keeps_storeValid)
qed

lemma storeValid_fresh_session: "storeValid (history state0)"
  by (simp add: storeValid_def newestFirst_def state0_def)

end
